theory Spec2Isabelle
  imports Main "HOL-Library.Word"
begin

section \<open>JavaScript strings\<close>

text \<open>
  A JavaScript string is a sequence of UTF-16 code units; \<open>length\<close>, \<open>substring\<close> and the
  offsets the checker reports all count code units.
\<close>

type_synonym code_unit = "16 word"
type_synonym jsstring = "code_unit list"

definition ascii :: "string \<Rightarrow> jsstring" where
  "ascii s = map (\<lambda>c. word_of_nat (of_char c)) s"

text \<open>
  \<open>String.prototype.trim\<close> removes WhiteSpace and LineTerminator code units from both ends
  (ECMAScript: TAB, LF, VT, FF, CR, SP, NBSP, the Unicode space separators, LS, PS, BOM).
\<close>

definition is_js_whitespace :: "code_unit \<Rightarrow> bool" where
  "is_js_whitespace u \<longleftrightarrow>
     u = 0x0009 \<or> u = 0x000A \<or> u = 0x000B \<or> u = 0x000C \<or> u = 0x000D \<or> u = 0x0020 \<or>
     u = 0x00A0 \<or> u = 0x1680 \<or> (0x2000 \<le> u \<and> u \<le> 0x200A) \<or> u = 0x2028 \<or>
     u = 0x2029 \<or> u = 0x202F \<or> u = 0x205F \<or> u = 0x3000 \<or> u = 0xFEFF"

definition trim :: "jsstring \<Rightarrow> jsstring" where
  "trim s = rev (dropWhile is_js_whitespace (rev (dropWhile is_js_whitespace s)))"

section \<open>The rich-text surface\<close>

text \<open>
  Modelled from the spec: the Quill editor instance that \<open>QuillEditor\<close> drives is a library
  object whose code is not part of the repository. It is modelled after the Document Adapter
  contract (section 4.1): the document is the checker-visible character sequence, each
  character carrying the \<open>error\<close> mark or not, together with the current selection.
  \<open>formatText\<close> is the contract's \<open>formatRange\<close>: it sets or removes the mark over
  \<open>[index, index + len)\<close> and does nothing when the range is out of bounds. \<open>deleteText\<close> and
  \<open>insertText\<close> are \<open>deleteRange\<close> and \<open>insertAt\<close>; the contract does not say what they do
  outside the text, and they are clipped to it here, as is the range of \<open>setSelection\<close>.
  Quill's block structure (the line break it keeps at the end of the text), the other
  formats and keyboard focus are left out.
\<close>

type_synonym cell = "code_unit \<times> bool"
type_synonym markup = "cell list"

record quill =
  cells :: "cell list"
  selection :: "(int \<times> int) option"

definition getText :: "quill \<Rightarrow> jsstring" where
  "getText q = map fst (cells q)"

definition innerHTML :: "quill \<Rightarrow> markup" where
  "innerHTML q = cells q"

definition span_lo :: "int \<Rightarrow> nat" where
  "span_lo index = nat (max 0 index)"

definition span_hi :: "int \<Rightarrow> int \<Rightarrow> nat" where
  "span_hi index len = nat (max (max 0 index) (index + len))"

definition formatText :: "int \<Rightarrow> int \<Rightarrow> bool \<Rightarrow> quill \<Rightarrow> quill" where
  "formatText index len v q =
     (let cs = cells q
      in if 0 \<le> index \<and> 0 \<le> len \<and> index + len \<le> int (length cs)
         then q\<lparr>cells := take (nat index) cs
                          @ map (\<lambda>(c, m). (c, v)) (take (nat len) (drop (nat index) cs))
                          @ drop (nat (index + len)) cs\<rparr>
         else q)"

definition deleteText :: "int \<Rightarrow> int \<Rightarrow> quill \<Rightarrow> quill" where
  "deleteText index len q =
     (let lo = span_lo index; hi = span_hi index len; cs = cells q
      in q\<lparr>cells := take lo cs @ drop hi cs\<rparr>)"

definition insertText :: "int \<Rightarrow> jsstring \<Rightarrow> quill \<Rightarrow> quill" where
  "insertText index t q =
     (let lo = span_lo index; cs = cells q
      in q\<lparr>cells := take lo cs @ map (\<lambda>c. (c, False)) t @ drop lo cs\<rparr>)"

definition clip_range :: "nat \<Rightarrow> int \<Rightarrow> int \<Rightarrow> int \<times> int" where
  "clip_range n index len =
     (let i = min (int n) (max 0 index) in (i, min (int n - i) (max 0 len)))"

definition setSelection :: "(int \<times> int) option \<Rightarrow> quill \<Rightarrow> quill" where
  "setSelection r q =
     (case r of
        None \<Rightarrow> q\<lparr>selection := None\<rparr>
      | Some (index, len) \<Rightarrow> q\<lparr>selection := Some (clip_range (length (cells q)) index len)\<rparr>)"

definition getSelection :: "quill \<Rightarrow> (int \<times> int) option" where
  "getSelection q = selection q"

text \<open>\<open>quill.format(name, value)\<close> formats the text of the current selection.\<close>

definition format :: "bool \<Rightarrow> quill \<Rightarrow> quill" where
  "format v q =
     (case selection q of
        None \<Rightarrow> q
      | Some (index, len) \<Rightarrow> formatText index len v q)"

section \<open>Findings\<close>

text \<open>
  A match of the checker, as the wire contract gives it: a replacement is either a string or
  an object with a \<open>value\<close> field.
\<close>

datatype replacement = Str jsstring | Obj jsstring

record finding =
  offset :: int
  length_f :: int
  message :: jsstring
  replacements :: "replacement list"
  source :: "jsstring option"
  ai_explanation :: "jsstring option"

text \<open>\<open>x || 0\<close> on a number: \<open>0\<close> is falsy, every other integer is kept.\<close>

definition or_zero :: "int \<Rightarrow> int" where
  "or_zero x = (if x = 0 then 0 else x)"

section \<open>The editor component\<close>

text \<open>
  \<open>QuillEditor\<close> keeps the Quill instance (\<open>quillInstanceRef\<close>, null until created) and the
  update flag \<open>isUpdatingRef\<close>. Its \<open>onChange\<close> property is a parameter: a callback acting on
  the state of whoever mounted the editor.
\<close>

record editor =
  quillInstance :: "quill option"
  isUpdating :: bool

type_synonym 'a on_change = "markup \<Rightarrow> jsstring \<Rightarrow> 'a \<Rightarrow> 'a"

text \<open>The handler registered for Quill's \<open>text-change\<close> event.\<close>

definition text_change :: "'a on_change \<Rightarrow> editor \<times> 'a \<Rightarrow> editor \<times> 'a" where
  "text_change onChange st =
     (case st of (ed, outer) \<Rightarrow>
        if isUpdating ed then (ed, outer)
        else (case quillInstance ed of
                None \<Rightarrow> (ed, outer)
              | Some q \<Rightarrow> (ed, onChange (innerHTML q) (getText q) outer)))"

text \<open>
  A call of a Quill method from the component. Quill emits \<open>text-change\<close> synchronously,
  inside the call, when the call changed the contents; a selection change emits none.
\<close>

definition quill_api :: "(quill \<Rightarrow> quill) \<Rightarrow> 'a on_change \<Rightarrow> editor \<times> 'a \<Rightarrow> editor \<times> 'a" where
  "quill_api f onChange st =
     (case st of (ed, outer) \<Rightarrow>
        (case quillInstance ed of
           None \<Rightarrow> (ed, outer)
         | Some q \<Rightarrow>
             let ed' = ed\<lparr>quillInstance := Some (f q)\<rparr>
             in if cells (f q) = cells q then (ed', outer)
                else text_change onChange (ed', outer)))"

definition set_updating :: "bool \<Rightarrow> editor \<times> 'a \<Rightarrow> editor \<times> 'a" where
  "set_updating b st = (case st of (ed, outer) \<Rightarrow> (ed\<lparr>isUpdating := b\<rparr>, outer))"

definition call_onChange :: "'a on_change \<Rightarrow> editor \<times> 'a \<Rightarrow> editor \<times> 'a" where
  "call_onChange onChange st =
     (case st of (ed, outer) \<Rightarrow>
        (case quillInstance ed of
           None \<Rightarrow> (ed, outer)
         | Some q \<Rightarrow> (ed, onChange (innerHTML q) (getText q) outer)))"

text \<open>
  \<open>replaceText(offset, length, replacement)\<close>, the method the component exposes. No call of
  the modelled surface throws, so the \<open>catch\<close> block is never entered and \<open>finally\<close> runs
  after the last statement of \<open>try\<close>.
\<close>

definition replaceText ::
  "'a on_change \<Rightarrow> int \<Rightarrow> int \<Rightarrow> jsstring \<Rightarrow> editor \<times> 'a \<Rightarrow> editor \<times> 'a" where
  "replaceText onChange off len replacement st =
     (case quillInstance (fst st) of
        None \<Rightarrow> st
      | Some _ \<Rightarrow>
          let st1 = set_updating True st;
              st2 = quill_api (formatText off len False) onChange st1;
              st3 = quill_api (deleteText off len) onChange st2;
              st4 = quill_api (insertText off replacement) onChange st3;
              st5 = quill_api (setSelection (Some (off + int (length replacement), 0))) onChange st4;
              st6 = call_onChange onChange st5
          in set_updating False st6)"

text \<open>The body of \<open>errors.forEach\<close> in the projection effect.\<close>

definition mark_match :: "'a on_change \<Rightarrow> nat \<Rightarrow> editor \<times> 'a \<Rightarrow> finding \<Rightarrow> editor \<times> 'a" where
  "mark_match onChange text_length st match =
     (let off = or_zero (offset match); len = or_zero (length_f match)
      in if off \<ge> 0 \<and> off + len \<le> int text_length \<and> len > 0
         then quill_api (format True) onChange
                (quill_api (setSelection (Some (off, len))) onChange st)
         else st)"

text \<open>
  The effect on \<open>errors\<close>: the callback of its 200 ms timer. It clears the error mark over
  the whole text, marks every finding that fits and restores the selection.
\<close>

definition projection :: "'a on_change \<Rightarrow> finding list \<Rightarrow> editor \<times> 'a \<Rightarrow> editor \<times> 'a" where
  "projection onChange errors st =
     (case quillInstance (fst st) of
        None \<Rightarrow> st
      | Some q \<Rightarrow>
          let text = getText q
          in if errors = [] then
               (if length text > 0
                then set_updating False
                       (quill_api (formatText 0 (int (length text)) False) onChange
                          (set_updating True st))
                else st)
             else
               let st1 = set_updating True st;
                   st2 = (if length text > 0
                          then quill_api (formatText 0 (int (length text)) False) onChange st1
                          else st1);
                   range = (case quillInstance (fst st2) of None \<Rightarrow> None | Some q2 \<Rightarrow> getSelection q2);
                   st3 = foldl (mark_match onChange (length text)) st2 errors;
                   st4 = quill_api (setSelection range) onChange st3
               in set_updating False st4)"

text \<open>A callback that only records what it is given, to observe the calls of \<open>onChange\<close>.\<close>

definition record_change :: "(markup \<times> jsstring) list on_change" where
  "record_change html text log = log @ [(html, text)]"

section \<open>The application component\<close>

text \<open>The body of a successful answer of \<open>/v2/check\<close>; every field may be missing.\<close>

record check_result =
  matches :: "finding list option"
  corrections_found :: "int option"
  ai_enabled :: "bool option"
  ai_ready :: "bool option"
  suggestion :: "jsstring option"

text \<open>
  How an awaited \<open>fetch\<close> ends: a success status with its JSON body, another status with the
  \<open>detail\<close> of its body (if any), or a rejected promise (network failure, unreadable body)
  with the message of the error.
\<close>

datatype response = Ok check_result | NotOk "jsstring option" | Failed jsstring

text \<open>
  The state of \<open>App\<close>. \<open>ignoredErrorsRef\<close> mirrors \<open>ignoredErrors\<close> after every render and is
  read as that field. \<open>debounceTimer\<close> is the pending timer of \<open>debounceTimerRef\<close>, holding
  the text that the \<open>checkText\<close> closure it will call has captured; \<open>inflight\<close> are the texts
  of the requests sent and not answered yet, oldest first. \<open>aiAnalysis\<close> only records whether
  an analysis is stored.
\<close>

record app =
  text_value :: jsstring
  htmlContent :: markup
  loading :: bool
  error :: "jsstring option"
  result :: "check_result option"
  aiEnabled :: bool
  aiAnalysis :: bool
  ignoredErrors :: "jsstring set"
  debounceTimer :: "jsstring option"
  inflight :: "jsstring list"

text \<open>Decimal rendering of an integer, as a template literal renders a safe integer.\<close>

definition digit :: "nat \<Rightarrow> code_unit" where
  "digit d = word_of_nat (48 + d)"

fun digits_of :: "nat \<Rightarrow> jsstring" where
  "digits_of n =
     (if n < 10 then [digit n]
      else digits_of (n div 10) @ [digit (n mod 10)])"

declare digits_of.simps [simp del]

definition number_to_string :: "int \<Rightarrow> jsstring" where
  "number_to_string i = (if i < 0 then 0x2D # digits_of (nat (- i)) else digits_of (nat i))"

text \<open>The identity of a finding: the string \<open>offset-length-message\<close>.\<close>

definition errorId :: "finding \<Rightarrow> jsstring" where
  "errorId match =
     number_to_string (offset match) @ [0x2D] @ number_to_string (length_f match) @ [0x2D]
       @ message match"

text \<open>\<open>a || b\<close> on strings: the empty string and \<open>undefined\<close> are falsy.\<close>

definition or_string :: "jsstring option \<Rightarrow> jsstring \<Rightarrow> jsstring" where
  "or_string a b = (case a of None \<Rightarrow> b | Some x \<Rightarrow> if x = [] then b else x)"

definition handleEditorChange :: "app on_change" where
  "handleEditorChange html plainText s = s\<lparr>htmlContent := html, text_value := plainText\<rparr>"

text \<open>
  \<open>checkText\<close> up to its \<open>await fetch\<close>: \<open>t\<close> is the text the closure has captured. The
  request is sent unless the trimmed text is empty.
\<close>

definition checkText_start :: "jsstring \<Rightarrow> app \<Rightarrow> app" where
  "checkText_start t s =
     (if trim t = []
      then s\<lparr>error := Some (ascii ''Por favor, digite um texto para verificar.''),
             result := None, ignoredErrors := {}\<rparr>
      else s\<lparr>loading := True, error := None, inflight := inflight s @ [t]\<rparr>)"

text \<open>The \<open>forEach\<close> that keeps the ignored identities the new matches still report.\<close>

definition preservedIgnored :: "jsstring set \<Rightarrow> finding list \<Rightarrow> jsstring set" where
  "preservedIgnored previousIgnoredIds newMatches =
     foldl (\<lambda>preserved match.
              if errorId match \<in> previousIgnoredIds then insert (errorId match) preserved
              else preserved)
       {} newMatches"

text \<open>\<open>checkText\<close> from the point where the awaited request has ended.\<close>

definition checkText_resume :: "response \<Rightarrow> app \<Rightarrow> app" where
  "checkText_resume r s =
     (case r of
        Ok data \<Rightarrow>
          let newMatches = (case matches data of None \<Rightarrow> [] | Some ms \<Rightarrow> ms);
              preserved = preservedIgnored (ignoredErrors s) newMatches
          in s\<lparr>result := Some data, aiEnabled := (ai_enabled data = Some True),
                ignoredErrors := preserved, aiAnalysis := False, loading := False\<rparr>
      | NotOk detail \<Rightarrow>
          let thrown = or_string detail (ascii ''Erro ao verificar o texto.'')
          in s\<lparr>error := Some (or_string (Some thrown) (ascii ''Erro ao conectar a api'')),
                loading := False\<rparr>
      | Failed msg \<Rightarrow>
          s\<lparr>error := Some (or_string (Some msg) (ascii ''Erro ao conectar a api'')),
            loading := False\<rparr>)"

text \<open>
  The debounce effect, run after a render in which \<open>text\<close> changed: it clears the pending
  timer, then either resets the results (empty trimmed text) or starts a new timer.
\<close>

definition debounce_effect :: "app \<Rightarrow> app" where
  "debounce_effect s =
     (let s1 = s\<lparr>debounceTimer := None\<rparr>
      in if trim (text_value s1) = []
         then s1\<lparr>result := None, error := None, ignoredErrors := {}\<rparr>
         else s1\<lparr>debounceTimer := Some (text_value s1)\<rparr>)"

text \<open>
  The render after an event handler: the effect depends on \<open>text\<close> (and on \<open>checkText\<close>,
  which is rebuilt only when \<open>text\<close> changes), so it runs when the text differs from the
  text of the previous render.
\<close>

definition commit :: "jsstring \<Rightarrow> app \<Rightarrow> app" where
  "commit previous_text s = (if text_value s = previous_text then s else debounce_effect s)"

datatype event = Change markup jsstring | TimerFires | ResponseArrives nat response

text \<open>
  One turn of the event loop: the editor reports a change, the debounce timer fires, or the
  \<open>i\<close>-th request in flight ends.
\<close>

fun step :: "app \<Rightarrow> event \<Rightarrow> app" where
  "step s (Change html plainText) = commit (text_value s) (handleEditorChange html plainText s)"
| "step s TimerFires =
     (case debounceTimer s of
        None \<Rightarrow> s
      | Some t \<Rightarrow> checkText_start t (s\<lparr>debounceTimer := None\<rparr>))"
| "step s (ResponseArrives i r) =
     (if i < length (inflight s)
      then checkText_resume r (s\<lparr>inflight := take i (inflight s) @ drop (Suc i) (inflight s)\<rparr>)
      else s)"

definition run :: "app \<Rightarrow> event list \<Rightarrow> app" where
  "run s evs = foldl step s evs"

text \<open>The state before the first render, and after the effects of the mount.\<close>

definition app_init :: app where
  "app_init = debounce_effect
     \<lparr>text_value = [], htmlContent = [], loading = False, error = None, result = None,
      aiEnabled = False, aiAnalysis = False, ignoredErrors = {}, debounceTimer = None,
      inflight = []\<rparr>"

text \<open>The \<open>errors\<close> property handed to the editor: the matches that are not ignored.\<close>

definition active_errors :: "app \<Rightarrow> finding list" where
  "active_errors s =
     (case result s of
        None \<Rightarrow> []
      | Some r \<Rightarrow>
          (case matches r of
             None \<Rightarrow> []
           | Some ms \<Rightarrow> filter (\<lambda>match. errorId match \<notin> ignoredErrors s) ms))"

text \<open>
  \<open>handleIgnoreError\<close>; it is called with the position of a displayed match. (Past the end
  of the list, reading \<open>match.offset\<close> throws before any state is set.)
\<close>

definition handleIgnoreError :: "nat \<Rightarrow> app \<Rightarrow> app" where
  "handleIgnoreError matchIndex s =
     (case result s of
        None \<Rightarrow> s
      | Some r \<Rightarrow>
          (case matches r of
             None \<Rightarrow> s
           | Some ms \<Rightarrow>
               if matchIndex < length ms
               then s\<lparr>ignoredErrors := insert (errorId (ms ! matchIndex)) (ignoredErrors s)\<rparr>
               else s))"

text \<open>\<open>!replacement\<close>: the empty string is falsy, an object never is.\<close>

fun falsy :: "replacement \<Rightarrow> bool" where
  "falsy (Str t) = (t = [])"
| "falsy (Obj v) = False"

fun replacement_text :: "replacement \<Rightarrow> jsstring" where
  "replacement_text (Str t) = t"
| "replacement_text (Obj v) = v"

text \<open>Reading an array at a position: \<open>undefined\<close> past the end.\<close>

definition at_index :: "'a list \<Rightarrow> nat \<Rightarrow> 'a option" where
  "at_index xs i = (if i < length xs then Some (xs ! i) else None)"

text \<open>
  \<open>handleReplaceText\<close>, on the editor handle (\<open>editorRef.current\<close>, null before the editor is
  mounted) and the state of \<open>App\<close>; both indices are array positions. The editor calls
  \<open>handleEditorChange\<close> back; the render that follows runs the debounce effect.
\<close>

definition handleReplaceText ::
  "nat \<Rightarrow> nat \<Rightarrow> editor option \<times> app \<Rightarrow> editor option \<times> app" where
  "handleReplaceText matchIndex replacementIndex w =
     (case w of (editorRef, s) \<Rightarrow>
        (case result s of
           None \<Rightarrow> w
         | Some r \<Rightarrow>
             (case matches r of
                None \<Rightarrow> w
              | Some ms \<Rightarrow>
                  if matchIndex \<ge> length ms then w
                  else
                    let match = ms ! matchIndex
                    in (case at_index (replacements match) replacementIndex of
                          None \<Rightarrow> w
                        | Some replacement \<Rightarrow>
                            if falsy replacement then w
                            else
                              (case editorRef of
                                 None \<Rightarrow> w
                               | Some ed \<Rightarrow>
                                   let replacementText = replacement_text replacement;
                                       st = replaceText handleEditorChange (offset match)
                                              (length_f match) replacementText (ed, s);
                                       s1 = snd st;
                                       s2 = s1\<lparr>ignoredErrors := ignoredErrors s1 - {errorId match}\<rparr>
                                   in (Some (fst st), commit (text_value s) s2))))))"

section \<open>The editor operations as functions of the document\<close>

text \<open>What an observer reads off the editor: its plain text and its cells (empty before
  the Quill instance exists).\<close>

definition plainText :: "editor \<Rightarrow> jsstring" where
  "plainText ed = (case quillInstance ed of None \<Rightarrow> [] | Some q \<Rightarrow> getText q)"

definition editor_cells :: "editor \<Rightarrow> cell list" where
  "editor_cells ed = (case quillInstance ed of None \<Rightarrow> [] | Some q \<Rightarrow> cells q)"

text \<open>
  While the update flag is set no notification reaches \<open>onChange\<close>, so each operation of the
  component acts on the Quill document alone. These are the functions it is shown to compute
  there: \<open>replace_q\<close> for \<open>replaceText\<close>, \<open>mark_q\<close> for the body of the loop and \<open>projection_q\<close>
  for the projection; \<open>fmt_cells\<close> and \<open>mark_cells\<close> are \<open>formatText\<close> and \<open>mark_q\<close> on the
  cells.
\<close>

definition fmt_cells :: "int \<Rightarrow> int \<Rightarrow> bool \<Rightarrow> cell list \<Rightarrow> cell list" where
  "fmt_cells index len v cs =
     (if 0 \<le> index \<and> 0 \<le> len \<and> index + len \<le> int (length cs)
      then take (nat index) cs @ map (\<lambda>(c, m). (c, v)) (take (nat len) (drop (nat index) cs))
             @ drop (nat (index + len)) cs
      else cs)"

definition replace_q :: "int \<Rightarrow> int \<Rightarrow> jsstring \<Rightarrow> quill \<Rightarrow> quill" where
  "replace_q off len replacement q =
     setSelection (Some (off + int (length replacement), 0))
       (insertText off replacement (deleteText off len (formatText off len False q)))"

definition mark_q :: "nat \<Rightarrow> quill \<Rightarrow> finding \<Rightarrow> quill" where
  "mark_q text_length q match =
     (let off = or_zero (offset match); len = or_zero (length_f match)
      in if off \<ge> 0 \<and> off + len \<le> int text_length \<and> len > 0
         then format True (setSelection (Some (off, len)) q)
         else q)"

definition projection_q :: "finding list \<Rightarrow> quill \<Rightarrow> quill" where
  "projection_q errors q =
     (let n = length (getText q);
          q1 = (if n > 0 then formatText 0 (int n) False q else q)
      in if errors = [] then q1
         else setSelection (getSelection q1) (foldl (mark_q n) q1 errors))"

definition mark_cells :: "nat \<Rightarrow> cell list \<Rightarrow> finding \<Rightarrow> cell list" where
  "mark_cells text_length cs match =
     (let off = offset match; len = length_f match
      in if off \<ge> 0 \<and> off + len \<le> int text_length \<and> len > 0
         then (case clip_range (length cs) off len of (i, l) \<Rightarrow> fmt_cells i l True cs)
         else cs)"

section \<open>Example values\<close>

text \<open>
  The document of the scenario of section 8, the text \<open>Teh cat\<close>, unmarked and with no
  selection, and two findings for it: the misspelt first word, and a finding computed for a
  longer text, whose span \<open>[5, 9)\<close> runs past the end.
\<close>

definition teh_cat :: editor where
  "teh_cat =
     \<lparr>quillInstance = Some \<lparr>cells = map (\<lambda>c. (c, False)) (ascii ''Teh cat''), selection = None\<rparr>,
      isUpdating = False\<rparr>"

definition teh_finding :: finding where
  "teh_finding = \<lparr>offset = 0, length_f = 3, message = ascii ''spelling'',
                   replacements = [Str (ascii ''The'')], source = None, ai_explanation = None\<rparr>"

definition stale_finding :: finding where
  "stale_finding = \<lparr>offset = 5, length_f = 4, message = ascii ''spelling'', replacements = [],
                     source = None, ai_explanation = None\<rparr>"

text \<open>
  For the scenarios of the application: the markup of an unmarked text, two answers of the
  checker, the finding \<open>{offset: 4, length: 3, message: "agreement"}\<close> and an answer reporting
  it, and a state of \<open>App\<close> with a stored result, an ignored finding and a pending timer.
\<close>

definition unmarked :: "jsstring \<Rightarrow> markup" where
  "unmarked t = map (\<lambda>c. (c, False)) t"

definition data_A :: check_result where
  "data_A = \<lparr>matches = Some [\<lparr>offset = 0, length_f = 1, message = ascii ''spelling'', replacements = [],
                              source = None, ai_explanation = None\<rparr>],
            corrections_found = Some 1, ai_enabled = None, ai_ready = None, suggestion = None\<rparr>"

definition data_B :: check_result where
  "data_B = \<lparr>matches = Some [], corrections_found = Some 0, ai_enabled = None, ai_ready = None,
            suggestion = None\<rparr>"

definition agreement_finding :: finding where
  "agreement_finding = \<lparr>offset = 4, length_f = 3, message = ascii ''agreement'', replacements = [],
                         source = None, ai_explanation = None\<rparr>"

definition agreement_check :: check_result where
  "agreement_check = \<lparr>matches = Some [agreement_finding], corrections_found = Some 1,
                       ai_enabled = None, ai_ready = None, suggestion = None\<rparr>"

definition busy_state :: app where
  "busy_state =
     step (handleIgnoreError 0
             (run app_init [Change (unmarked (ascii ''a'')) (ascii ''a''), TimerFires,
                            ResponseArrives 0 (Ok data_A)]))
       (Change (unmarked (ascii ''ab'')) (ascii ''ab''))"

section \<open>Properties of the editor component\<close>

subsection \<open>The operations while the update flag is set\<close>

lemma or_zero_id [simp]: "or_zero x = x" by (simp add: or_zero_def)

lemma text_change_gated: "isUpdating ed \<Longrightarrow> text_change oc (ed, outer) = (ed, outer)"
  by (simp add: text_change_def)

lemma quill_api_gated:
  "isUpdating ed \<Longrightarrow> quillInstance ed = Some q \<Longrightarrow>
   quill_api f oc (ed, outer) = (ed\<lparr>quillInstance := Some (f q)\<rparr>, outer)"
  by (simp add: quill_api_def text_change_def Let_def)

lemma replaceText_eq:
  "quillInstance ed = Some q \<Longrightarrow>
   replaceText oc off len rep (ed, outer) =
     (ed\<lparr>quillInstance := Some (replace_q off len rep q), isUpdating := False\<rparr>,
      oc (innerHTML (replace_q off len rep q)) (getText (replace_q off len rep q)) outer)"
  by (simp add: replaceText_def set_updating_def quill_api_gated call_onChange_def replace_q_def Let_def)

subsection \<open>The plain text after a replacement\<close>

lemma take_splice: "lo \<le> hi \<Longrightarrow> take lo (take lo T @ drop hi T) = take lo T"
  by (cases "lo \<le> length T") (simp_all add: min_def)

lemma drop_splice: "lo \<le> hi \<Longrightarrow> drop lo (take lo T @ drop hi T) = drop hi T"
  by (cases "lo \<le> length T") (simp_all add: min_def)

lemma span_lo_le_hi: "span_lo i \<le> span_hi i l"
  by (simp add: span_lo_def span_hi_def)

lemma cells_formatText: "cells (formatText i l v q) = fmt_cells i l v (cells q)"
  by (simp add: formatText_def fmt_cells_def Let_def)

lemma selection_formatText: "selection (formatText i l v q) = selection q"
  by (simp add: formatText_def Let_def)

lemma map_fst_mark: "map fst (map (\<lambda>(c, m). (c, v)) xs) = map fst xs"
  by (induction xs) auto

lemma map_fst_fmt_cells: "map fst (fmt_cells i l v cs) = map fst cs"
proof (cases "0 \<le> i \<and> 0 \<le> l \<and> i + l \<le> int (length cs)")
  case True
  then have "drop (nat (i + l)) cs = drop (nat l) (drop (nat i) cs)"
    by (simp add: nat_add_distrib add.commute)
  then have "take (nat l) (drop (nat i) cs) @ drop (nat (i + l)) cs = drop (nat i) cs"
    by (simp only: append_take_drop_id)
  then have split: "take (nat i) cs @ take (nat l) (drop (nat i) cs) @ drop (nat (i + l)) cs = cs"
    by (simp only: append_take_drop_id)
  from True have "map fst (fmt_cells i l v cs) =
      map fst (take (nat i) cs @ take (nat l) (drop (nat i) cs) @ drop (nat (i + l)) cs)"
    by (auto simp add: fmt_cells_def)
  then show ?thesis by (simp only: split)
next
  case False
  have "fmt_cells i l v cs = cs"
    unfolding fmt_cells_def by (rule if_not_P) (rule False)
  then show ?thesis by simp
qed

lemma length_fmt_cells: "length (fmt_cells i l v cs) = length cs"
  using arg_cong [OF map_fst_fmt_cells, of length i l v cs] by simp

lemma getText_formatText: "getText (formatText i l v q) = getText q"
  by (simp add: getText_def cells_formatText map_fst_fmt_cells)

lemma getText_deleteText:
  "getText (deleteText i l q) = take (span_lo i) (getText q) @ drop (span_hi i l) (getText q)"
  by (simp add: getText_def deleteText_def Let_def take_map drop_map)

lemma getText_insertText:
  "getText (insertText i t q) = take (span_lo i) (getText q) @ t @ drop (span_lo i) (getText q)"
  by (simp add: getText_def insertText_def Let_def take_map drop_map comp_def)

lemma getText_setSelection: "getText (setSelection r q) = getText q"
  by (simp add: getText_def setSelection_def split: option.splits prod.splits)

lemma getText_replace_q:
  "getText (replace_q off len rep q) =
     take (span_lo off) (getText q) @ rep @ drop (span_hi off len) (getText q)"
  by (simp add: replace_q_def getText_setSelection getText_insertText getText_deleteText
      getText_formatText take_splice drop_splice span_lo_le_hi del: take_append drop_append)

lemma span_in_range: "0 \<le> off \<Longrightarrow> 0 \<le> len \<Longrightarrow> span_lo off = nat off \<and> span_hi off len = nat (off + len)"
  by (simp add: span_lo_def span_hi_def max_def)

text \<open>
  C2. Replacing a span that lies within the text: for a document with plain text \<open>D\<close> and a
  span of offset \<open>off\<close> and length \<open>len\<close> with \<open>0 \<le> off\<close>, \<open>0 \<le> len\<close> and
  \<open>off + len \<le> |D|\<close>, \<open>replaceText\<close> leaves a document whose plain text is exactly
  \<open>D[0:off] + replacement + D[off+len:]\<close>.
\<close>

theorem replaceText_plainText:
  assumes "quillInstance ed \<noteq> None"
    and "0 \<le> off" and "0 \<le> len" and "off + len \<le> int (length (plainText ed))"
  shows "plainText (fst (replaceText oc off len rep (ed, outer))) =
           take (nat off) (plainText ed) @ rep @ drop (nat (off + len)) (plainText ed)"
proof -
  from assms(1) obtain q where q: "quillInstance ed = Some q" by auto
  show ?thesis
    using span_in_range [OF assms(2,3)]
    by (simp add: replaceText_eq [OF q] plainText_def q getText_replace_q)
qed

theorem replaceText_plainText_witness:
  "quillInstance teh_cat \<noteq> None \<and> (0::int) + 3 \<le> int (length (plainText teh_cat)) \<and>
   plainText (fst (replaceText record_change 0 3 (ascii ''The'') (teh_cat, []))) = ascii ''The cat''"
  using replaceText_plainText [of teh_cat 0 3 record_change "ascii ''The''" "[]"]
  by (simp add: teh_cat_def plainText_def getText_def ascii_def)

subsection \<open>The projection as a function of the document\<close>

lemma cells_mark_q: "cells (mark_q n q f) = mark_cells n (cells q) f"
  by (simp add: mark_q_def mark_cells_def format_def setSelection_def cells_formatText Let_def
      split: prod.splits)

lemma cells_fold_mark_q: "cells (foldl (mark_q n) q fs) = foldl (mark_cells n) (cells q) fs"
  by (induction fs arbitrary: q) (simp_all add: cells_mark_q)

lemma map_fst_mark_cells: "map fst (mark_cells n cs f) = map fst cs"
  by (simp add: mark_cells_def map_fst_fmt_cells Let_def split: prod.splits)

lemma map_fst_fold_mark_cells: "map fst (foldl (mark_cells n) cs fs) = map fst cs"
  by (induction fs arbitrary: cs) (simp_all add: map_fst_mark_cells)

lemma mark_match_gated:
  "isUpdating ed \<Longrightarrow> quillInstance ed = Some q \<Longrightarrow>
   mark_match oc n (ed, outer) f = (ed\<lparr>quillInstance := Some (mark_q n q f)\<rparr>, outer)"
  by (simp add: mark_match_def mark_q_def quill_api_gated Let_def)

lemma fold_mark_match_gated:
  "isUpdating ed \<Longrightarrow> quillInstance ed = Some q \<Longrightarrow>
   foldl (mark_match oc n) (ed, outer) fs = (ed\<lparr>quillInstance := Some (foldl (mark_q n) q fs)\<rparr>, outer)"
proof (induction fs arbitrary: ed q)
  case Nil
  then show ?case by simp
next
  case (Cons f fs)
  have "foldl (mark_match oc n) (ed, outer) (f # fs) =
        foldl (mark_match oc n) (ed\<lparr>quillInstance := Some (mark_q n q f)\<rparr>, outer) fs"
    by (simp add: mark_match_gated [OF Cons.prems])
  also have "\<dots> = (ed\<lparr>quillInstance := Some (mark_q n q f)\<rparr>\<lparr>quillInstance := Some (foldl (mark_q n) (mark_q n q f) fs)\<rparr>, outer)"
    by (rule Cons.IH) (simp_all add: Cons.prems)
  finally show ?case by simp
qed

lemma projection_eq:
  assumes q: "quillInstance ed = Some q"
  shows "projection oc errors (ed, outer) =
     (if errors = [] \<and> getText q = [] then (ed, outer)
      else (ed\<lparr>quillInstance := Some (projection_q errors q), isUpdating := False\<rparr>, outer))"
proof (cases "errors = []")
  case True
  then show ?thesis
    by (simp add: projection_def q set_updating_def quill_api_gated projection_q_def Let_def)
next
  case False
  show ?thesis
  proof (cases "getText q = []")
    case True
    with False show ?thesis
      by (simp add: projection_def q set_updating_def quill_api_gated projection_q_def Let_def
          fold_mark_match_gated getSelection_def)
  next
    case nonempty: False
    with False show ?thesis
      by (simp add: projection_def q set_updating_def quill_api_gated projection_q_def Let_def
          fold_mark_match_gated getSelection_def)
  qed
qed

lemma clear_cells: "fmt_cells 0 (int (length cs)) False cs = map (\<lambda>c. (c, False)) (map fst cs)"
  by (simp add: fmt_cells_def comp_def case_prod_unfold)

lemma cells_projection_q:
  "cells (projection_q errors q) =
     (if errors = [] then map (\<lambda>c. (c, False)) (getText q)
      else foldl (mark_cells (length (getText q))) (map (\<lambda>c. (c, False)) (getText q)) errors)"
proof -
  define q1 where "q1 = (if 0 < length (getText q) then formatText 0 (int (length (getText q))) False q else q)"
  have len: "length (getText q) = length (cells q)" by (simp add: getText_def)
  have clr: "cells q1 = map (\<lambda>c. (c, False)) (getText q)"
    unfolding q1_def
    by (cases "cells q = []") (simp_all add: len cells_formatText clear_cells getText_def)
  have "projection_q errors q =
          (if errors = [] then q1
           else setSelection (getSelection q1) (foldl (mark_q (length (getText q))) q1 errors))"
    by (simp add: projection_q_def q1_def Let_def)
  moreover have "cells (setSelection r q') = cells q'" for r q'
    by (simp add: setSelection_def split: option.splits prod.splits)
  ultimately show ?thesis
    by (simp add: cells_fold_mark_q clr)
qed

lemma getText_projection_q: "getText (projection_q errors q) = getText q"
  by (simp add: getText_def [of "projection_q errors q"] cells_projection_q map_fst_fold_mark_cells comp_def)

lemma selection_projection_q:
  "selection (projection_q errors q) =
     (if errors = [] then selection q
      else (case selection q of None \<Rightarrow> None
            | Some (i, l) \<Rightarrow> Some (clip_range (length (getText q)) i l)))"
proof -
  have "length (cells (foldl (mark_q n) q' errors)) = length (cells q')" for n q'
    using arg_cong [OF map_fst_fold_mark_cells, of length n "cells q'" errors]
    by (simp add: cells_fold_mark_q)
  then show ?thesis
    unfolding projection_q_def Let_def
    by (simp add: setSelection_def getSelection_def selection_formatText cells_formatText
        length_fmt_cells getText_def split: option.splits prod.splits)
qed

subsection \<open>Idempotence of the projection\<close>

lemma clip_range_fixed:
  "0 \<le> a \<Longrightarrow> a \<le> int n \<Longrightarrow> 0 \<le> b \<Longrightarrow> b \<le> int n - a \<Longrightarrow> clip_range n a b = (a, b)"
  by (simp add: clip_range_def Let_def)

lemma clip_range_idem:
  "clip_range n (fst (clip_range n i l)) (snd (clip_range n i l)) = clip_range n i l"
proof -
  obtain a b where ab: "clip_range n i l = (a, b)" by (cases "clip_range n i l")
  then have "0 \<le> a" "a \<le> int n" "0 \<le> b" "b \<le> int n - a"
    by (auto simp: clip_range_def Let_def)
  then show ?thesis by (simp add: ab clip_range_fixed)
qed

lemma projection_q_idem: "projection_q errors (projection_q errors q) = projection_q errors q"
proof (rule quill.equality)
  show "cells (projection_q errors (projection_q errors q)) = cells (projection_q errors q)"
    by (simp add: cells_projection_q getText_projection_q)
  show "selection (projection_q errors (projection_q errors q)) = selection (projection_q errors q)"
    by (auto simp: selection_projection_q getText_projection_q clip_range_idem case_prod_unfold
        split: option.splits)
qed simp

text \<open>
  C4. Projection is idempotent: for every state of the editor and every list of findings,
  running the projection a second time with the same findings leaves the state (text, marks,
  selection and update flag) exactly as the first run left it.
\<close>

theorem projection_idempotent:
  "projection oc errors (projection oc errors st) = projection oc errors st"
proof (cases st)
  case (Pair ed outer)
  show ?thesis
  proof (cases "quillInstance ed")
    case None
    then show ?thesis by (simp add: Pair projection_def)
  next
    case (Some q)
    show ?thesis
    proof (cases "errors = [] \<and> getText q = []")
      case True
      then show ?thesis by (simp add: Pair projection_eq [OF Some])
    next
      case False
      have q': "quillInstance (ed\<lparr>quillInstance := Some (projection_q errors q), isUpdating := False\<rparr>)
                  = Some (projection_q errors q)" by simp
      show ?thesis
        using False
        by (simp add: Pair projection_eq [OF Some] projection_eq [OF q'] projection_q_idem
            getText_projection_q)
    qed
  qed
qed


subsection \<open>Findings that do not fit the document\<close>

lemma mark_q_out_of_range:
  "offset f < 0 \<or> length_f f \<le> 0 \<or> offset f + length_f f > int n \<Longrightarrow> mark_q n q f = q"
  by (auto simp: mark_q_def Let_def)

lemma mark_match_out_of_range:
  "offset f < 0 \<or> length_f f \<le> 0 \<or> offset f + length_f f > int n \<Longrightarrow> mark_match oc n st f = st"
  by (auto simp: mark_match_def Let_def)

lemma projection_q_skip:
  assumes "offset f < 0 \<or> length_f f \<le> 0 \<or> offset f + length_f f > int (length (getText q))"
  shows "xs @ ys \<noteq> [] \<Longrightarrow> projection_q (xs @ f # ys) q = projection_q (xs @ ys) q"
    and "cells (projection_q (xs @ f # ys) q) = cells (projection_q (xs @ ys) q)"
proof -
  have skip: "foldl (mark_q (length (getText q))) q' (xs @ f # ys) = foldl (mark_q (length (getText q))) q' (xs @ ys)" for q'
    by (simp add: mark_q_out_of_range [OF assms])
  show "xs @ ys \<noteq> [] \<Longrightarrow> projection_q (xs @ f # ys) q = projection_q (xs @ ys) q"
    unfolding projection_q_def Let_def skip by auto
  have "foldl (mark_cells (length (getText q))) cs (xs @ f # ys) = foldl (mark_cells (length (getText q))) cs (xs @ ys)" for cs
    using assms by (auto simp: mark_cells_def Let_def)
  then show "cells (projection_q (xs @ f # ys) q) = cells (projection_q (xs @ ys) q)"
    unfolding cells_projection_q by (cases "xs @ ys = []") simp_all
qed

lemma getText_literal: "getText \<lparr>cells = cs, selection = r\<rparr> = map fst cs"
  by (simp add: getText_def)

text \<open>
  C5. A finding whose span exceeds the current document (\<open>offset < 0\<close>, or \<open>length \<le> 0\<close>,
  or \<open>offset + length\<close> greater than the length of the plain text) is skipped by the
  projection: the loop body calls no operation of the surface for it and returns the state
  as it was (nothing is thrown), the marks of the document after the projection are those
  it would have without the finding, and the findings before and after it in the list are
  processed as if it were absent.
\<close>

theorem out_of_range_finding_skipped:
  assumes q: "quillInstance ed = Some q"
    and out: "offset f < 0 \<or> length_f f \<le> 0 \<or> offset f + length_f f > int (length (getText q))"
  shows "mark_match oc (length (getText q)) (ed, outer) f = (ed, outer) \<and>
         editor_cells (fst (projection oc (xs @ f # ys) (ed, outer))) =
           editor_cells (fst (projection oc (xs @ ys) (ed, outer))) \<and>
         (xs @ ys \<noteq> [] \<longrightarrow>
            projection oc (xs @ f # ys) (ed, outer) = projection oc (xs @ ys) (ed, outer))"
proof (intro conjI impI)
  show "mark_match oc (length (getText q)) (ed, outer) f = (ed, outer)"
    by (rule mark_match_out_of_range [OF out])
  show "editor_cells (fst (projection oc (xs @ f # ys) (ed, outer))) =
           editor_cells (fst (projection oc (xs @ ys) (ed, outer)))"
  proof (cases "xs @ ys = [] \<and> getText q = []")
    case True
    then have "cells q = []" by (simp add: getText_def)
    with True out show ?thesis
      by (auto simp add: projection_eq [OF q] editor_cells_def q cells_projection_q mark_cells_def Let_def)
  next
    case False
    then show ?thesis
      by (auto simp add: projection_eq [OF q] editor_cells_def projection_q_skip(2) [OF out])
  qed
  show "projection oc (xs @ f # ys) (ed, outer) = projection oc (xs @ ys) (ed, outer)" if "xs @ ys \<noteq> []"
    using that by (auto simp add: projection_eq [OF q] projection_q_skip(1) [OF out])
qed

theorem out_of_range_finding_skipped_witness:
  "editor_cells (fst (projection record_change [teh_finding, stale_finding] (teh_cat, []))) =
     [(0x54, True), (0x65, True), (0x68, True), (0x20, False), (0x63, False), (0x61, False), (0x74, False)] \<and>
   projection record_change [teh_finding, stale_finding] (teh_cat, []) =
     projection record_change [teh_finding] (teh_cat, [])"
  using out_of_range_finding_skipped [of teh_cat _ stale_finding record_change "[]" "[teh_finding]" "[]"]
  apply (simp add: teh_cat_def stale_finding_def getText_def ascii_def)
  apply (simp add: projection_eq editor_cells_def projection_q_def getText_def teh_finding_def mark_q_def
      format_def setSelection_def clip_range_def Let_def formatText_def span_lo_def span_hi_def getSelection_def)
  done

subsection \<open>The replacement scenario of section 8\<close>

text \<open>
  On \<open>Teh cat\<close> with the finding \<open>{offset: 0, length: 3}\<close> projected, replacing it by \<open>The\<close>
  gives the text \<open>The cat\<close> with no mark and the caret at offset 3.
\<close>

lemma teh_cat_scenario:
  "editor_cells (fst (projection record_change [teh_finding] (teh_cat, []))) =
     [(0x54, True), (0x65, True), (0x68, True), (0x20, False), (0x63, False), (0x61, False), (0x74, False)] \<and>
   fst (replaceText record_change 0 3 (ascii ''The'')
          (projection record_change [teh_finding] (teh_cat, []))) =
     \<lparr>quillInstance = Some \<lparr>cells = unmarked (ascii ''The cat''), selection = Some (3, 0)\<rparr>,
      isUpdating = False\<rparr>"
  by (simp add: teh_cat_def teh_finding_def projection_eq replaceText_eq projection_q_def mark_q_def
      replace_q_def format_def formatText_def deleteText_def insertText_def setSelection_def
      getSelection_def clip_range_def span_lo_def span_hi_def getText_def editor_cells_def
      unmarked_def ascii_def Let_def)

subsection \<open>The update flag and the change notifications\<close>

text \<open>
  C6. While the update flag is set, the \<open>text-change\<close> handler returns without calling
  \<open>onChange\<close>. So the projection, which changes marks under the flag, never calls
  \<open>onChange\<close>: the state of the application, and with it the debounce timer and the requests
  in flight, is left as it was. And a replacement reaches \<open>onChange\<close> exactly once, by the
  call that \<open>replaceText\<close> itself makes with the final document, not through the notifications
  of its three edits.
\<close>

theorem update_gate_blocks_text_change:
  "(isUpdating ed \<longrightarrow> text_change oc (ed, outer) = (ed, outer)) \<and>
   snd (projection oc errors (ed, outer)) = outer \<and>
   snd (replaceText oc off len rep (ed, outer)) =
     snd (call_onChange oc (fst (replaceText oc off len rep (ed, outer)), outer))"
proof (cases "quillInstance ed")
  case None
  then show ?thesis
    by (simp add: text_change_def projection_def replaceText_def call_onChange_def)
next
  case (Some q)
  then show ?thesis
    by (simp add: text_change_def projection_eq replaceText_eq call_onChange_def)
qed


theorem update_gate_blocks_text_change_witness:
  "isUpdating (teh_cat\<lparr>isUpdating := True\<rparr>) \<and>
   text_change record_change (teh_cat\<lparr>isUpdating := True\<rparr>, []) = (teh_cat\<lparr>isUpdating := True\<rparr>, []) \<and>
   snd (projection record_change [teh_finding] (teh_cat, [])) = [] \<and>
   map snd (snd (replaceText record_change 0 3 (ascii ''The'') (teh_cat, []))) = [ascii ''The cat'']"
  using update_gate_blocks_text_change [of "teh_cat\<lparr>isUpdating := True\<rparr>" record_change "[]" "[teh_finding]" 0 3 "ascii ''The''"]
    update_gate_blocks_text_change [of teh_cat record_change "[]" "[teh_finding]" 0 3 "ascii ''The''"]
  by (simp add: teh_cat_def replaceText_eq call_onChange_def record_change_def getText_replace_q
      getText_literal ascii_def span_lo_def span_hi_def)

subsection \<open>Replacement of a span that does not fit\<close>

text \<open>
  C9, as the claim states it, fails: \<open>replaceText\<close> and \<open>handleReplaceText\<close> compare the span
  with nothing. On the text \<open>Teh cat\<close> (7 characters) a replacement of the span \<open>[7, 9)\<close> by
  \<open>X\<close> changes the text to \<open>Teh catX\<close> and reports it to \<open>onChange\<close> as an ordinary change.
\<close>

theorem replaceText_unvalidated_counterexample:
  "int (length (plainText teh_cat)) < 7 + 2 \<and>
   plainText (fst (replaceText record_change 7 2 (ascii ''X'') (teh_cat, []))) = ascii ''Teh catX'' \<and>
   plainText (fst (replaceText record_change 7 2 (ascii ''X'') (teh_cat, []))) \<noteq> plainText teh_cat \<and>
   map snd (snd (replaceText record_change 7 2 (ascii ''X'') (teh_cat, []))) = [ascii ''Teh catX'']"
  by (simp add: teh_cat_def replaceText_eq plainText_def record_change_def getText_replace_q
      getText_literal ascii_def span_lo_def span_hi_def)

text \<open>
  C9, amended. A replacement whose span does not fit the document (\<open>offset + length\<close>
  greater than the length of the plain text) is not validated: \<open>replaceText\<close> neither returns
  early nor reports anything. It makes the calls it makes for a span that fits, with the
  offset and length as given (\<open>formatText\<close> to clear the mark, \<open>deleteText\<close>, \<open>insertText\<close> of
  the replacement at the offset, \<open>setSelection\<close> behind it), calls \<open>onChange\<close> once with the
  document these calls leave, and releases the update flag. What the document then is, is
  what the surface makes of those calls; the proof unfolds none of them.
\<close>

theorem replaceText_unvalidated:
  assumes "quillInstance ed = Some q" and "int (length (getText q)) < off + len"
  shows "replaceText oc off len rep (ed, outer) =
     (let q' = setSelection (Some (off + int (length rep), 0))
                 (insertText off rep (deleteText off len (formatText off len False q)))
      in (ed\<lparr>quillInstance := Some q', isUpdating := False\<rparr>,
          oc (innerHTML q') (getText q') outer))"
  using replaceText_eq [OF assms(1), of oc off len rep outer]
  by (simp only: replace_q_def Let_def)

theorem replaceText_unvalidated_witness:
  "quillInstance teh_cat = Some \<lparr>cells = unmarked (ascii ''Teh cat''), selection = None\<rparr> \<and>
   int (length (ascii ''Teh cat'')) < 7 + 2 \<and>
   replaceText record_change 7 2 (ascii ''X'') (teh_cat, []) =
     (\<lparr>quillInstance = Some \<lparr>cells = unmarked (ascii ''Teh catX''), selection = Some (8, 0)\<rparr>,
       isUpdating = False\<rparr>,
      [(unmarked (ascii ''Teh catX''), ascii ''Teh catX'')])"
  using replaceText_unvalidated [of teh_cat "\<lparr>cells = unmarked (ascii ''Teh cat''), selection = None\<rparr>"
      7 2 record_change "ascii ''X''" "[]"]
  by (simp add: teh_cat_def unmarked_def ascii_def getText_def innerHTML_def record_change_def
      formatText_def deleteText_def insertText_def setSelection_def clip_range_def span_lo_def
      span_hi_def Let_def)

section \<open>Properties of the application component\<close>

subsection \<open>The identity of a finding determines offset, length and message\<close>

lemma digit_unat: "k < 10 \<Longrightarrow> unat (digit k) = 48 + k"
  unfolding digit_def by (rule of_nat_inverse [OF refl]) simp

lemma digit_not_hyphen: "k < 10 \<Longrightarrow> digit k \<noteq> 0x2D"
proof
  assume k: "k < 10" and eq: "digit k = 0x2D"
  from eq have "unat (digit k) = unat (0x2D :: code_unit)" by (rule arg_cong)
  with digit_unat [OF k] show False by simp
qed

lemma digit_inj:
  assumes j: "j < 10" and k: "k < 10" and eq: "digit j = digit k"
  shows "j = k"
proof -
  from eq have "unat (digit j) = unat (digit k)" by (rule arg_cong)
  then show ?thesis by (simp only: digit_unat [OF j] digit_unat [OF k] add_left_cancel)
qed

lemma digits_of_nonempty: "digits_of n \<noteq> []"
  by (subst digits_of.simps) simp

lemma hyphen_notin_digits: "0x2D \<notin> set (digits_of n)"
proof (induction n rule: digits_of.induct)
  case (1 n)
  show ?case
  proof (cases "n < 10")
    case True
    then show ?thesis
      using digit_not_hyphen [of n] by (subst digits_of.simps) auto
  next
    case False
    then show ?thesis
      using "1" digit_not_hyphen [of "n mod 10"] by (subst digits_of.simps) auto
  qed
qed

lemma div_mod_10_eq:
  assumes "a div 10 = b div 10" and "a mod 10 = b mod 10"
  shows "(a::nat) = b"
proof -
  have "a = a div 10 * 10 + a mod 10" by (rule div_mult_mod_eq [symmetric])
  also have "\<dots> = b div 10 * 10 + b mod 10" by (simp only: assms)
  also have "\<dots> = b" by (rule div_mult_mod_eq)
  finally show ?thesis .
qed

lemma digits_of_inj: "digits_of a = digits_of b \<Longrightarrow> a = b"
proof (induction a arbitrary: b rule: digits_of.induct)
  case (1 a)
  show ?case
  proof (cases "a < 10")
    case a: True
    show ?thesis
    proof (cases "b < 10")
      case True
      with a "1.prems" show ?thesis
        by (simp add: digits_of.simps [of a] digits_of.simps [of b] digit_inj)
    next
      case False
      with a "1.prems" show ?thesis
        by (simp add: digits_of.simps [of a] digits_of.simps [of b] digits_of_nonempty
            digits_of_nonempty [THEN not_sym])
    qed
  next
    case a: False
    show ?thesis
    proof (cases "b < 10")
      case True
      with a "1.prems" show ?thesis
        by (simp add: digits_of.simps [of a] digits_of.simps [of b] digits_of_nonempty
            digits_of_nonempty [THEN not_sym])
    next
      case False
      with a "1.prems" have "digits_of (a div 10) = digits_of (b div 10)"
        and "digit (a mod 10) = digit (b mod 10)"
        by (simp_all add: digits_of.simps [of a] digits_of.simps [of b])
      then have "a div 10 = b div 10" and "a mod 10 = b mod 10"
        using "1.IH" [OF a] digit_inj [of "a mod 10" "b mod 10"] by simp_all
      then show ?thesis by (rule div_mod_10_eq)
    qed
  qed
qed

lemma split_at_first:
  "c \<notin> set xs \<Longrightarrow> c \<notin> set ys \<Longrightarrow> xs @ c # r = ys @ c # r' \<Longrightarrow> xs = ys \<and> r = r'"
proof (induction xs arbitrary: ys)
  case Nil
  then show ?case by (cases ys) auto
next
  case (Cons x xs)
  then show ?case by (cases ys) auto
qed

lemma number_prefix:
  assumes "number_to_string a @ 0x2D # r = number_to_string b @ 0x2D # r'"
  shows "a = b \<and> r = r'"
proof -
  have split: "digits_of m @ 0x2D # r = digits_of n @ 0x2D # r' \<Longrightarrow> m = n \<and> r = r'" for m n
    using split_at_first [OF hyphen_notin_digits hyphen_notin_digits, of m r n r'] digits_of_inj [of m n]
    by simp
  have mixed: "0x2D # xs \<noteq> digits_of n @ ys" for xs n ys
    using hyphen_notin_digits [of n] digits_of_nonempty [of n]
    by (cases "digits_of n") auto
  show ?thesis
  proof (cases "a < 0")
    case a: True
    show ?thesis
    proof (cases "b < 0")
      case True
      with a assms split [of "nat (- a)" "nat (- b)"] have "nat (- a) = nat (- b) \<and> r = r'"
        by (simp add: number_to_string_def)
      with a True show ?thesis by auto
    next
      case False
      with a assms mixed [of "digits_of (nat (- a)) @ 0x2D # r" "nat b" "0x2D # r'"] show ?thesis
        by (simp add: number_to_string_def)
    qed
  next
    case a: False
    show ?thesis
    proof (cases "b < 0")
      case True
      with a assms mixed [of "digits_of (nat (- b)) @ 0x2D # r'" "nat a" "0x2D # r"] show ?thesis
        by (simp add: number_to_string_def)
    next
      case False
      with a assms split [of "nat a" "nat b"] have "nat a = nat b \<and> r = r'"
        by (simp add: number_to_string_def)
      with a False show ?thesis by auto
    qed
  qed
qed

lemma errorId_inject:
  "errorId f = errorId g \<longleftrightarrow>
     offset f = offset g \<and> length_f f = length_f g \<and> message f = message g"
proof
  assume "errorId f = errorId g"
  then have "number_to_string (offset f) @ 0x2D # (number_to_string (length_f f) @ 0x2D # message f) =
             number_to_string (offset g) @ 0x2D # (number_to_string (length_f g) @ 0x2D # message g)"
    by (simp add: errorId_def)
  from number_prefix [OF this] number_prefix [of "length_f f" "message f" "length_f g" "message g"]
  show "offset f = offset g \<and> length_f f = length_f g \<and> message f = message g" by simp
next
  assume h: "offset f = offset g \<and> length_f f = length_f g \<and> message f = message g"
  show "errorId f = errorId g"
    unfolding errorId_def conjunct1 [OF h] conjunct1 [OF conjunct2 [OF h]] conjunct2 [OF conjunct2 [OF h]] ..
qed

subsection \<open>Reconciling the ignore set\<close>

lemma preservedIgnored_fold:
  "foldl (\<lambda>preserved match. if errorId match \<in> S then insert (errorId match) preserved else preserved) acc F
     = acc \<union> (S \<inter> errorId ` set F)"
  by (induction F arbitrary: acc) auto

text \<open>
  C3. For every previous ignore set \<open>S\<close> and every list \<open>F\<close> of new findings, the ignore
  set kept after the check is the set of the identities that are in \<open>S\<close> and are the identity
  of a finding of \<open>F\<close>; this is the set \<open>checkText\<close> stores with an accepted answer. An
  identity is the string \<open>offset-length-message\<close>, which determines the three values: the
  identity of \<open>f\<close> stays ignored exactly when it was ignored and \<open>F\<close> has a finding with the
  offset, length and message of \<open>f\<close>.
\<close>

theorem reconcile_ignore_set:
  "preservedIgnored S F = S \<inter> errorId ` set F \<and>
   ignoredErrors (checkText_resume (Ok data) s) =
     ignoredErrors s \<inter> errorId ` set (case matches data of None \<Rightarrow> [] | Some ms \<Rightarrow> ms) \<and>
   (errorId f \<in> preservedIgnored S F \<longleftrightarrow>
      errorId f \<in> S \<and>
      (\<exists>g \<in> set F. offset g = offset f \<and> length_f g = length_f f \<and> message g = message f))"
proof -
  have eq: "preservedIgnored S' F' = S' \<inter> errorId ` set F'" for S' F'
    by (simp add: preservedIgnored_def preservedIgnored_fold)
  have mem: "errorId f \<in> errorId ` set F \<longleftrightarrow>
        (\<exists>g \<in> set F. offset g = offset f \<and> length_f g = length_f f \<and> message g = message f)"
    by (simp add: image_iff errorId_inject) metis
  have "ignoredErrors (checkText_resume (Ok data) s) =
     ignoredErrors s \<inter> errorId ` set (case matches data of None \<Rightarrow> [] | Some ms \<Rightarrow> ms)"
    by (simp add: checkText_resume_def Let_def eq)
  with eq [of S F] mem show ?thesis by simp
qed

lemma errorId_agreement: "errorId agreement_finding = ascii ''4-3-agreement''"
  by code_simp

lemmas app_eval = run_def app_init_def commit_def handleEditorChange_def debounce_effect_def
  checkText_start_def checkText_resume_def handleIgnoreError_def preservedIgnored_def
  trim_def is_js_whitespace_def ascii_def unmarked_def Let_def

theorem reconcile_ignore_set_witness:
  "ignoredErrors (checkText_resume (Ok agreement_check)
      (handleIgnoreError 0 (checkText_resume (Ok agreement_check) app_init))) = {ascii ''4-3-agreement''} \<and>
   active_errors (checkText_resume (Ok agreement_check)
      (handleIgnoreError 0 (checkText_resume (Ok agreement_check) app_init))) = [] \<and>
   ignoredErrors (checkText_resume (Ok data_B)
      (handleIgnoreError 0 (checkText_resume (Ok agreement_check) app_init))) = {}"
  using reconcile_ignore_set [of "{ascii ''4-3-agreement''}" "[agreement_finding]" agreement_check
      "handleIgnoreError 0 (checkText_resume (Ok agreement_check) app_init)" agreement_finding]
    reconcile_ignore_set [of "{ascii ''4-3-agreement''}" "[]" data_B
      "handleIgnoreError 0 (checkText_resume (Ok agreement_check) app_init)" agreement_finding]
  by (simp add: checkText_resume_def handleIgnoreError_def app_init_def debounce_effect_def
      agreement_check_def data_B_def errorId_agreement active_errors_def Let_def trim_def)

subsection \<open>Empty text\<close>

lemma step_inflight_nonempty:
  "\<forall>u \<in> set (inflight s). trim u \<noteq> [] \<Longrightarrow> \<forall>u \<in> set (inflight (step s ev)). trim u \<noteq> []"
proof (cases ev)
  case (Change html t)
  assume "\<forall>u \<in> set (inflight s). trim u \<noteq> []"
  then show ?thesis
    by (simp add: Change commit_def handleEditorChange_def debounce_effect_def Let_def)
next
  case TimerFires
  assume "\<forall>u \<in> set (inflight s). trim u \<noteq> []"
  then show ?thesis
    by (auto simp add: TimerFires checkText_start_def split: option.splits)
next
  case (ResponseArrives i r)
  assume "\<forall>u \<in> set (inflight s). trim u \<noteq> []"
  then show ?thesis
    by (cases r) (auto simp add: ResponseArrives checkText_resume_def Let_def
        dest: in_set_takeD in_set_dropD)
qed

lemma run_inflight_nonempty:
  "\<forall>u \<in> set (inflight s). trim u \<noteq> [] \<Longrightarrow> \<forall>u \<in> set (inflight (run s evs)). trim u \<noteq> []"
  unfolding run_def
proof (induction evs arbitrary: s)
  case Nil
  then show ?case by simp
next
  case (Cons ev evs)
  from Cons.IH [OF step_inflight_nonempty [OF Cons.prems, of ev]] show ?case by simp
qed

lemma app_init_inflight: "inflight app_init = []"
  by (simp add: app_init_def debounce_effect_def trim_def)

text \<open>
  C7. When the text changes to one whose trimmed form is empty, the debounce effect leaves
  no pending timer, no check result, no error and an empty ignore set, and sends nothing:
  the requests in flight are those there were, a firing timer finds nothing to do,
  \<open>checkText\<close> itself sends no request for such a text, and in no run of the application
  from its initial state is a request for such a text ever in flight.
\<close>

theorem empty_text_clears:
  assumes "trim t = []" and "t \<noteq> text_value s"
  shows "debounceTimer (step s (Change html t)) = None \<and>
         result (step s (Change html t)) = None \<and>
         error (step s (Change html t)) = None \<and>
         ignoredErrors (step s (Change html t)) = {} \<and>
         inflight (step s (Change html t)) = inflight s \<and>
         step (step s (Change html t)) TimerFires = step s (Change html t) \<and>
         inflight (checkText_start t s) = inflight s \<and>
         t \<notin> set (inflight (run app_init evs))"
proof -
  have "\<forall>u \<in> set (inflight (run app_init evs)). trim u \<noteq> []"
    by (rule run_inflight_nonempty) (simp add: app_init_inflight)
  with assms show ?thesis
    by (auto simp add: commit_def handleEditorChange_def debounce_effect_def checkText_start_def)
qed

theorem empty_text_clears_witness:
  "trim [0x0A] = [] \<and> debounceTimer busy_state = Some (ascii ''ab'') \<and>
   result busy_state = Some data_A \<and> ignoredErrors busy_state \<noteq> {} \<and>
   debounceTimer (step busy_state (Change (unmarked [0x0A]) [0x0A])) = None \<and>
   result (step busy_state (Change (unmarked [0x0A]) [0x0A])) = None \<and>
   error (step busy_state (Change (unmarked [0x0A]) [0x0A])) = None \<and>
   ignoredErrors (step busy_state (Change (unmarked [0x0A]) [0x0A])) = {} \<and>
   inflight (step busy_state (Change (unmarked [0x0A]) [0x0A])) = []"
  using empty_text_clears [of "[0x0A]" busy_state "unmarked [0x0A]" "[]"]
  by (simp add: busy_state_def app_eval data_A_def)

subsection \<open>Failed requests\<close>

lemma or_string_nonempty: "b \<noteq> [] \<Longrightarrow> or_string a b \<noteq> []"
  by (simp add: or_string_def split: option.splits)

text \<open>
  C8. When a request in flight fails (a status other than success, or a rejected promise),
  a non-empty error message is stored for display, the stored check result and the ignore
  set are those there were before, and a later edit to a different non-empty text followed
  by the firing of its timer sends a new request for that text.
\<close>

theorem failed_check_keeps_result:
  assumes "i < length (inflight s)" and "r = NotOk detail \<or> r = Failed msg"
  shows "error (step s (ResponseArrives i r)) \<noteq> None \<and>
         error (step s (ResponseArrives i r)) \<noteq> Some [] \<and>
         result (step s (ResponseArrives i r)) = result s \<and>
         ignoredErrors (step s (ResponseArrives i r)) = ignoredErrors s \<and>
         (t \<noteq> text_value s \<and> trim t \<noteq> [] \<longrightarrow>
            inflight (run (step s (ResponseArrives i r)) [Change html t, TimerFires]) =
              inflight (step s (ResponseArrives i r)) @ [t])"
proof -
  have ne: "or_string a (ascii ''Erro ao conectar a api'') \<noteq> []" for a
    by (rule or_string_nonempty) (simp add: ascii_def)
  show ?thesis
    using assms ne
    by (auto simp add: checkText_resume_def Let_def run_def commit_def handleEditorChange_def
        debounce_effect_def checkText_start_def)
qed

theorem failed_check_keeps_result_witness:
  "error (step (run busy_state [TimerFires]) (ResponseArrives 0 (NotOk None))) =
     Some (ascii ''Erro ao verificar o texto.'') \<and>
   result (step (run busy_state [TimerFires]) (ResponseArrives 0 (NotOk None))) = Some data_A \<and>
   ignoredErrors (step (run busy_state [TimerFires]) (ResponseArrives 0 (NotOk None))) =
     ignoredErrors busy_state \<and>
   inflight (run (step (run busy_state [TimerFires]) (ResponseArrives 0 (NotOk None)))
      [Change (unmarked (ascii ''abc'')) (ascii ''abc''), TimerFires]) = [ascii ''abc'']"
  using failed_check_keeps_result [of 0 "run busy_state [TimerFires]" "NotOk None" None "[]"
      "ascii ''abc''" "unmarked (ascii ''abc'')"]
  by (simp add: busy_state_def app_eval data_A_def or_string_def)

subsection \<open>Guards of the replacement handler\<close>

text \<open>
  C10. When there is no check result, or the match index is not below the length of the
  match list, or the chosen match has no replacement at the replacement index,
  \<open>handleReplaceText\<close> returns with the editor (and so the document), the check result, the
  ignore set and all the rest of the state unchanged.
\<close>

theorem handleReplaceText_guards:
  assumes "result s = None
     \<or> (\<exists>r ms. result s = Some r \<and> matches r = Some ms \<and> length ms \<le> matchIndex)
     \<or> (\<exists>r ms. result s = Some r \<and> matches r = Some ms \<and> matchIndex < length ms \<and>
           length (replacements (ms ! matchIndex)) \<le> replacementIndex)"
  shows "handleReplaceText matchIndex replacementIndex (editorRef, s) = (editorRef, s)"
  using assms by (auto simp add: handleReplaceText_def at_index_def Let_def)

theorem handleReplaceText_guards_witness:
  "handleReplaceText 0 0 (Some teh_cat, app_init) = (Some teh_cat, app_init) \<and>
   handleReplaceText 1 0 (Some teh_cat, busy_state) = (Some teh_cat, busy_state) \<and>
   handleReplaceText 0 0 (Some teh_cat, busy_state) = (Some teh_cat, busy_state)"
  using handleReplaceText_guards [of app_init 0 0 "Some teh_cat"]
    handleReplaceText_guards [of busy_state 1 0 "Some teh_cat"]
    handleReplaceText_guards [of busy_state 0 0 "Some teh_cat"]
  by (simp add: busy_state_def app_eval data_A_def)

subsection \<open>The replacement handler past its guards\<close>

text \<open>
  With a match and a replacement selected and the editor mounted, the handler replaces the
  span in the editor, the text of \<open>App\<close> becomes the new plain text of the editor, and the
  identity of the match is no longer ignored.
\<close>

lemma handleReplaceText_replaces:
  assumes "result s = Some r" and "matches r = Some ms" and "matchIndex < length ms"
    and "at_index (replacements (ms ! matchIndex)) replacementIndex = Some rp" and "\<not> falsy rp"
    and q: "quillInstance ed = Some q"
    and "0 \<le> offset (ms ! matchIndex)" and "0 \<le> length_f (ms ! matchIndex)"
  shows "text_value (snd (handleReplaceText matchIndex replacementIndex (Some ed, s))) =
           take (nat (offset (ms ! matchIndex))) (getText q) @ replacement_text rp @
           drop (nat (offset (ms ! matchIndex) + length_f (ms ! matchIndex))) (getText q) \<and>
         map_option plainText (fst (handleReplaceText matchIndex replacementIndex (Some ed, s))) =
           Some (text_value (snd (handleReplaceText matchIndex replacementIndex (Some ed, s)))) \<and>
         errorId (ms ! matchIndex) \<notin>
           ignoredErrors (snd (handleReplaceText matchIndex replacementIndex (Some ed, s)))"
  using assms(1-5,7,8) span_in_range [OF assms(7,8)]
  by (simp add: handleReplaceText_def replaceText_eq [OF q] Let_def handleEditorChange_def
      commit_def debounce_effect_def getText_replace_q plainText_def)

subsection \<open>Responses of superseded requests\<close>

text \<open>
  C1, as the claim states it, fails: nothing marks a request as superseded. Request A is
  sent for the text \<open>a\<close>; an edit to \<open>ab\<close> and its timer send request B while A is in
  flight; B's response arrives and is stored; then A's response arrives and replaces it.
\<close>

theorem stale_response_counterexample:
  "inflight (run app_init [Change (unmarked (ascii ''a'')) (ascii ''a''), TimerFires,
      Change (unmarked (ascii ''ab'')) (ascii ''ab''), TimerFires]) = [ascii ''a'', ascii ''ab''] \<and>
   result (run app_init [Change (unmarked (ascii ''a'')) (ascii ''a''), TimerFires,
      Change (unmarked (ascii ''ab'')) (ascii ''ab''), TimerFires,
      ResponseArrives 1 (Ok data_B)]) = Some data_B \<and>
   result (run app_init [Change (unmarked (ascii ''a'')) (ascii ''a''), TimerFires,
      Change (unmarked (ascii ''ab'')) (ascii ''ab''), TimerFires,
      ResponseArrives 1 (Ok data_B), ResponseArrives 0 (Ok data_A)]) = Some data_A \<and>
   data_A \<noteq> data_B"
  by (simp add: app_eval data_A_def data_B_def)

text \<open>
  C1, amended. No response is discarded: when the response of any request in flight arrives
  with a success status, its data becomes the stored check result, whether or not a newer
  request has been sent since; the stored result is that of the response that arrived last.
  A change of the text leaves the requests in flight as they are and replaces only the
  pending debounce timer.
\<close>

theorem every_response_is_stored:
  assumes "i < length (inflight s)"
  shows "result (step s (ResponseArrives i (Ok data))) = Some data \<and>
         inflight (step s (Change html t)) = inflight s \<and>
         (t \<noteq> text_value s \<longrightarrow>
            debounceTimer (step s (Change html t)) = (if trim t = [] then None else Some t))"
  using assms
  by (simp add: checkText_resume_def Let_def commit_def handleEditorChange_def debounce_effect_def)

theorem every_response_is_stored_witness:
  "inflight (run app_init [Change (unmarked (ascii ''a'')) (ascii ''a''), TimerFires,
      Change (unmarked (ascii ''ab'')) (ascii ''ab''), TimerFires]) = [ascii ''a'', ascii ''ab''] \<and>
   result (step (run app_init [Change (unmarked (ascii ''a'')) (ascii ''a''), TimerFires,
      Change (unmarked (ascii ''ab'')) (ascii ''ab''), TimerFires]) (ResponseArrives 0 (Ok data_A))) =
     Some data_A"
  using every_response_is_stored [of 0 "run app_init [Change (unmarked (ascii ''a'')) (ascii ''a''),
      TimerFires, Change (unmarked (ascii ''ab'')) (ascii ''ab''), TimerFires]" data_A "[]" "[]"]
  by (simp add: app_eval)



end
